theory Spec2Isabelle
  imports Complex_Main "HOL-Library.While_Combinator" "HOL-Library.Sublist" "HOL-Library.Log_Nat"
    "HOL-Library.Code_Target_Nat"
begin

section \<open>Python and NumPy values\<close>

text \<open>
  The validator of \<^verbatim>\<open>frontend/utils/segmentation_validator.py\<close> works on NumPy arrays.
  An array is its shape together with its elements in C order (last axis fastest).
  Label values are Python/NumPy integers; no arithmetic is done on them, so they are
  plain integers here.  A Python float is a binary64 number and is held as the rational
  it denotes; every float operation rounds its exact result to binary64 (see below).
\<close>

record 'a ndarray =
  shape :: "nat list"
  data :: "'a list"

definition np_size :: "'a ndarray \<Rightarrow> nat" where
  "np_size a = length (data a)"

text \<open>\<^verbatim>\<open>np.unique\<close>: the distinct values in ascending order.\<close>

definition np_unique :: "int list \<Rightarrow> int list" where
  "np_unique xs = remdups (sort xs)"

text \<open>\<^verbatim>\<open>unique_labels[unique_labels != 0]\<close>\<close>

definition nonzero_labels :: "int ndarray \<Rightarrow> int list" where
  "nonzero_labels seg_data = filter (\<lambda>l. l \<noteq> 0) (np_unique (data seg_data))"

text \<open>\<^verbatim>\<open>seg_data == label_id\<close> and \<^verbatim>\<open>labeled_array == i\<close>\<close>

definition np_eq :: "'a ndarray \<Rightarrow> 'a \<Rightarrow> bool ndarray" where
  "np_eq a l = \<lparr>shape = shape a, data = map (\<lambda>x. x = l) (data a)\<rparr>"

text \<open>\<^verbatim>\<open>np.count_nonzero\<close> on an integer array and on a boolean array.\<close>

definition count_nonzero :: "int ndarray \<Rightarrow> nat" where
  "count_nonzero a = length (filter (\<lambda>x. x \<noteq> 0) (data a))"

definition count_true :: "bool ndarray \<Rightarrow> nat" where
  "count_true m = length (filter (\<lambda>b. b) (data m))"

subsection \<open>Rendering numbers as Python does\<close>

definition digit_char :: "nat \<Rightarrow> char" where
  "digit_char d = char_of (48 + d)"

fun str_nat :: "nat \<Rightarrow> string" where
  "str_nat n = (if n < 10 then [digit_char n] else str_nat (n div 10) @ [digit_char (n mod 10)])"

declare str_nat.simps [simp del]

definition str_int :: "int \<Rightarrow> string" where
  "str_int i = (if i < 0 then CHR ''-'' # str_nat (nat (- i)) else str_nat (nat i))"

text \<open>\<^verbatim>\<open>", ".join(xs)\<close> and friends.\<close>

fun join :: "string \<Rightarrow> string list \<Rightarrow> string" where
  "join sep [] = []"
| "join sep [x] = x"
| "join sep (x # y # ys) = x @ sep @ join sep (y # ys)"

text \<open>\<^verbatim>\<open>str\<close> of a Python list of ints: \<^verbatim>\<open>[1, 2, 3]\<close>.\<close>

definition py_list_str :: "int list \<Rightarrow> string" where
  "py_list_str xs = ''['' @ join '', '' (map str_int xs) @ '']''"

text \<open>
  \<^verbatim>\<open>str\<close> of a one-dimensional NumPy integer array: the elements right-aligned to the
  width of the widest one and separated by one blank.  NumPy breaks the text after 75
  columns and abbreviates arrays of more than 1000 elements; neither is modelled.
\<close>

definition pad_left :: "nat \<Rightarrow> string \<Rightarrow> string" where
  "pad_left w s = replicate (w - length s) CHR '' '' @ s"

definition np_array_str :: "int list \<Rightarrow> string" where
  "np_array_str xs =
     (let ss = map str_int xs; w = fold max (map length ss) 0
      in ''['' @ join '' '' (map (pad_left w) ss) @ '']'')"

text \<open>\<^verbatim>\<open>str\<close> of a shape tuple: \<^verbatim>\<open>()\<close>, \<^verbatim>\<open>(5,)\<close>, \<^verbatim>\<open>(64, 64, 32)\<close>.\<close>

definition py_tuple_str :: "nat list \<Rightarrow> string" where
  "py_tuple_str xs =
     (case xs of [x] \<Rightarrow> ''('' @ str_nat x @ '',)''
      | _ \<Rightarrow> ''('' @ join '', '' (map str_nat xs) @ '')'')"

subsection \<open>Python floats\<close>

text \<open>
  \<open>binary64 x\<close> is the binary64 number nearest to the rational \<open>x\<close>, ties to the even
  significand (IEEE 754 round-to-nearest-even): 53 significant bits for magnitudes from
  2 to the power -1022 on, multiples of 2 to the power -1074 below that.  Python's true
  division of two ints and its float multiplication return the exact result rounded so.
  Infinities and NaN are not values here; no quotient of two counts comes near the
  overflow threshold.
\<close>

definition round_half_even :: "rat \<Rightarrow> int" where
  "round_half_even q =
     (let f = \<lfloor>q\<rfloor>; r = q - of_int f
      in if r < 1 / 2 then f else if 1 / 2 < r then f + 1 else if even f then f else f + 1)"

text \<open>For \<open>x > 0\<close>, the exponent \<open>e\<close> with \<open>2 powi e \<le> x < 2 powi (e + 1)\<close>.\<close>

definition floor_log2 :: "rat \<Rightarrow> int" where
  "floor_log2 x =
     (let (p, q) = quotient_of x; k = bitlen p - bitlen q
      in if 2 powi k \<le> x then k else k - 1)"

definition binary64 :: "rat \<Rightarrow> rat" where
  "binary64 x =
     (if x = 0 then 0
      else (let e = max (floor_log2 \<bar>x\<bar>) (- 1022); u = 2 powi (e - 52)
            in of_int (round_half_even (x / u)) * u))"

text \<open>\<^verbatim>\<open>a / b\<close> on two Python ints with \<open>b \<noteq> 0\<close>.\<close>

definition py_truediv :: "int \<Rightarrow> int \<Rightarrow> rat" where
  "py_truediv a b = binary64 (of_int a / of_int b)"

text \<open>
  The format specifications \<^verbatim>\<open>:.1%\<close> and \<^verbatim>\<open>:.2%\<close>: the float is multiplied by 100 (a
  float multiplication), and the product is written with the given number of decimals,
  correctly rounded (ties to even), followed by a percent sign.  A negative product
  keeps its sign also when it rounds to zero.
\<close>

definition fmt_percent :: "nat \<Rightarrow> rat \<Rightarrow> string" where
  "fmt_percent d x =
     (let v = binary64 (x * 100);
          m = nat \<bar>round_half_even (v * 10 ^ d)\<bar>;
          frac = str_nat (m mod 10 ^ d)
      in (if v < 0 then ''-'' else []) @ str_nat (m div 10 ^ d)
         @ (if d = 0 then [] else ''.'' @ replicate (d - length frac) CHR ''0'' @ frac)
         @ ''%'')"

section \<open>Connected components: \<^verbatim>\<open>scipy.ndimage.label\<close>\<close>

text \<open>
  \<^verbatim>\<open>ndimage.label(mask)\<close> with its default structuring element labels the components
  of the mask under face adjacency (6-connectivity in three dimensions): two voxels are
  neighbours when their coordinates differ by one along exactly one axis.  It returns the
  array of component numbers (0 outside the mask, \<open>1..K\<close> inside) and \<open>K\<close>.  Components
  are numbered here in the order of their first voxel; no property below depends on the
  numbering.
\<close>

fun unravel_index :: "nat \<Rightarrow> nat list \<Rightarrow> nat list" where
  "unravel_index i [] = []"
| "unravel_index i (d # ds) = (i div prod_list ds) # unravel_index (i mod prod_list ds) ds"

definition face_adjacent :: "nat list \<Rightarrow> nat \<Rightarrow> nat \<Rightarrow> bool" where
  "face_adjacent shp i j \<longleftrightarrow>
     sum_list (map (\<lambda>(a, b). if a \<le> b then b - a else a - b)
                (zip (unravel_index i shp) (unravel_index j shp))) = 1"

definition mask_neighbours :: "bool ndarray \<Rightarrow> nat \<Rightarrow> nat list" where
  "mask_neighbours m i =
     (if i < length (data m) \<and> data m ! i then
        filter (\<lambda>j. data m ! j \<and> face_adjacent (shape m) i j) [0..<length (data m)]
      else [])"

text \<open>The component of a voxel: everything reachable from it through neighbours.\<close>

definition component_of :: "bool ndarray \<Rightarrow> nat \<Rightarrow> nat set" where
  "component_of m i =
     (case rtrancl_while (\<lambda>_. True) (mask_neighbours m) i of
        Some (ws, Z) \<Rightarrow> Z
      | None \<Rightarrow> {})"

text \<open>The first voxel of the component of a voxel.\<close>

definition component_root :: "bool ndarray \<Rightarrow> nat \<Rightarrow> nat" where
  "component_root m i =
     (case find (\<lambda>j. j \<in> component_of m i) [0..<length (data m)] of
        Some j \<Rightarrow> j
      | None \<Rightarrow> i)"

definition component_roots :: "bool ndarray \<Rightarrow> nat list" where
  "component_roots m =
     filter (\<lambda>i. data m ! i \<and> component_root m i = i) [0..<length (data m)]"

definition ndimage_label :: "bool ndarray \<Rightarrow> nat ndarray \<times> nat" where
  "ndimage_label m =
     (let roots = component_roots m;
          labeled =
            map (\<lambda>i. if data m ! i
                      then Suc (length (filter (\<lambda>r. r < component_root m i) roots))
                      else 0)
              [0..<length (data m)]
      in (\<lparr>shape = shape m, data = labeled\<rparr>, length roots))"

text \<open>\<^verbatim>\<open>a[mask] = v\<close>\<close>

definition assign_masked :: "'a ndarray \<Rightarrow> bool ndarray \<Rightarrow> 'a \<Rightarrow> 'a ndarray" where
  "assign_masked a selected v =
     a\<lparr>data := map (\<lambda>(x, b). if b then v else x) (zip (data a) (data selected))\<rparr>"

section \<open>The label catalog\<close>

text \<open>
  \<^verbatim>\<open>label_dict\<close> maps a label ID to its entry.  The validator reads an entry only
  through \<^verbatim>\<open>.get('name', ...)\<close>, so the name is optional.
\<close>

record label_info =
  name :: "string option"
  color :: "nat list"

type_synonym label_dict = "int \<rightharpoonup> label_info"

section \<open>SegmentationValidator\<close>

text \<open>
  The thresholds the constructor reads from the configuration dictionary, each with
  the default of \<^verbatim>\<open>config.get\<close>.  The float literals \<^verbatim>\<open>0.95\<close> and \<^verbatim>\<open>0.001\<close> denote the
  binary64 numbers nearest to them.
\<close>

record config =
  cfg_min_voxels_per_label :: "int option"
  cfg_min_voxels_per_component :: "int option"
  cfg_max_segmentation_ratio :: "rat option"
  cfg_min_segmentation_ratio :: "rat option"
  cfg_enable_cleanup :: "bool option"

definition min_voxels_per_label :: "config \<Rightarrow> int" where
  "min_voxels_per_label c = (case cfg_min_voxels_per_label c of Some v \<Rightarrow> v | None \<Rightarrow> 10)"

definition min_voxels_per_component :: "config \<Rightarrow> int" where
  "min_voxels_per_component c = (case cfg_min_voxels_per_component c of Some v \<Rightarrow> v | None \<Rightarrow> 10)"

definition max_segmentation_ratio :: "config \<Rightarrow> rat" where
  "max_segmentation_ratio c = (case cfg_max_segmentation_ratio c of Some v \<Rightarrow> v | None \<Rightarrow> binary64 (95 / 100))"

definition min_segmentation_ratio :: "config \<Rightarrow> rat" where
  "min_segmentation_ratio c = (case cfg_min_segmentation_ratio c of Some v \<Rightarrow> v | None \<Rightarrow> binary64 (1 / 1000))"

subsection \<open>validate_labels\<close>

definition validate_labels :: "int ndarray \<Rightarrow> label_dict \<Rightarrow> bool \<times> string list \<times> string list" where
  "validate_labels seg_data label_dict =
     (let unique_labels = nonzero_labels seg_data;
          unknown_labels = filter (\<lambda>label_id. label_dict label_id = None) unique_labels;
          warnings =
            (if unknown_labels \<noteq> [] then
               [''Found '' @ str_nat (length unknown_labels) @ '' unknown label(s): ''
                 @ py_list_str (take 10 unknown_labels)
                 @ (if length unknown_labels > 10 then '' (showing first 10)'' else [])]
             else []);
          negative_labels = filter (\<lambda>l. l < 0) unique_labels;
          errors =
            (if length negative_labels > 0 then
               [''Found negative label IDs: '' @ np_array_str negative_labels]
             else [])
      in (length errors = 0, warnings, errors))"

subsection \<open>validate_dimensions\<close>

text \<open>
  A NIfTI image as the validator reads it: the voxel array (whose shape is the image's
  shape) and the affine matrix, its 16 entries row by row.  For the segmentation the
  voxel array is the one \<^verbatim>\<open>validate_and_clean\<close> obtains by
  \<^verbatim>\<open>get_fdata().astype(np.int16)\<close>; of the input image only shape and affine are read.
\<close>

record 'a nifti_image =
  img :: "'a ndarray"
  affine :: "rat list"

text \<open>\<^verbatim>\<open>np.allclose(a, b, atol=1e-3)\<close>, with NumPy's default \<^verbatim>\<open>rtol=1e-5\<close>.\<close>

definition np_allclose :: "rat list \<Rightarrow> rat list \<Rightarrow> bool" where
  "np_allclose a b = list_all (\<lambda>(x, y). \<bar>x - y\<bar> \<le> 1 / 1000 + 1 / 100000 * \<bar>y\<bar>) (zip a b)"

definition validate_dimensions ::
  "'a nifti_image \<Rightarrow> 'b nifti_image option \<Rightarrow> bool \<times> string list" where
  "validate_dimensions seg_img input_img =
     (let seg_shape = shape (img seg_img);
          seg_affine = affine seg_img
      in if length seg_shape < 3 then
           (False, [''Segmentation has invalid dimensions: '' @ py_tuple_str seg_shape])
         else
           (let errors =
              (case input_img of
                 None \<Rightarrow> []
               | Some inp \<Rightarrow>
                   (let input_shape = shape (img inp);
                        input_affine = affine inp
                    in (if seg_shape \<noteq> input_shape then
                          [''Dimension mismatch: segmentation '' @ py_tuple_str seg_shape
                             @ '' != input '' @ py_tuple_str input_shape]
                        else [])
                       @ (if \<not> np_allclose seg_affine input_affine then
                            [''Affine matrix mismatch between segmentation and input'']
                          else [])))
            in (length errors = 0, errors)))"

subsection \<open>validate_voxel_counts\<close>

definition over_segmentation_warning :: "config \<Rightarrow> rat \<Rightarrow> string" where
  "over_segmentation_warning cfg segmentation_ratio =
     ''Segmentation covers '' @ fmt_percent 1 segmentation_ratio @ '' of volume ''
     @ ''(exceeds '' @ fmt_percent 1 (max_segmentation_ratio cfg)
     @ '' threshold) - possible over-segmentation''"

definition under_segmentation_warning :: "config \<Rightarrow> rat \<Rightarrow> string" where
  "under_segmentation_warning cfg segmentation_ratio =
     ''Segmentation covers only '' @ fmt_percent 1 segmentation_ratio @ '' of volume ''
     @ ''(below '' @ fmt_percent 1 (min_segmentation_ratio cfg)
     @ '' threshold) - possible under-segmentation''"

text \<open>\<^verbatim>\<open>label_dict.get(int(label_id), {}).get('name', f'Label {label_id}')\<close>\<close>

definition label_name :: "label_dict \<Rightarrow> int \<Rightarrow> string" where
  "label_name label_dict label_id =
     (case label_dict label_id of
        None \<Rightarrow> ''Label '' @ str_int label_id
      | Some info \<Rightarrow> (case name info of None \<Rightarrow> ''Label '' @ str_int label_id | Some n \<Rightarrow> n))"

text \<open>The loop over the labels: one entry for each label with too few voxels.\<close>

fun small_labels :: "config \<Rightarrow> int ndarray \<Rightarrow> label_dict \<Rightarrow> int list \<Rightarrow> string list" where
  "small_labels cfg seg_data label_dict [] = []"
| "small_labels cfg seg_data label_dict (label_id # rest) =
     (let label_mask = np_eq seg_data label_id;
          voxel_count = count_true label_mask
      in (if int voxel_count < min_voxels_per_label cfg then
            [label_name label_dict label_id @ '' (ID: '' @ str_int label_id @ ''): ''
               @ str_nat voxel_count @ '' voxels'']
          else [])
         @ small_labels cfg seg_data label_dict rest)"

definition validate_voxel_counts ::
  "config \<Rightarrow> int ndarray \<Rightarrow> label_dict \<Rightarrow> int \<Rightarrow> bool \<times> string list \<times> string list" where
  "validate_voxel_counts cfg seg_data label_dict total_voxels =
     (let unique_labels = nonzero_labels seg_data;
          segmented_voxels = count_nonzero seg_data;
          segmentation_ratio =
            (if total_voxels > 0 then py_truediv (int segmented_voxels) total_voxels else 0);
          ratio_warnings =
            (if segmentation_ratio > max_segmentation_ratio cfg then
               [over_segmentation_warning cfg segmentation_ratio]
             else if segmentation_ratio < min_segmentation_ratio cfg then
               [under_segmentation_warning cfg segmentation_ratio]
             else []);
          small = small_labels cfg seg_data label_dict unique_labels;
          small_warnings =
            (if small \<noteq> [] then
               [''Found '' @ str_nat (length small) @ '' label(s) with < ''
                  @ str_int (min_voxels_per_label cfg) @ '' voxels: ''
                  @ join '', '' (take 5 small)
                  @ (if length small > 5 then
                       '' (showing first 5 of '' @ str_nat (length small) @ '')''
                     else [])]
             else []);
          errors = []
      in (length errors = 0, ratio_warnings @ small_warnings, errors))"

subsection \<open>validate_statistics\<close>

text \<open>
  \<^verbatim>\<open>label_counts\<close> is a dictionary filled in ascending label order; it is kept as
  the list of its items.  \<^verbatim>\<open>max(label_counts, key=label_counts.get)\<close> returns the
  first key whose count is largest.
\<close>

definition label_counts :: "int ndarray \<Rightarrow> (int \<times> nat) list" where
  "label_counts seg_data =
     map (\<lambda>label_id. (label_id, count_true (np_eq seg_data label_id)))
       (filter (\<lambda>label_id. label_id \<noteq> 0) (np_unique (data seg_data)))"

fun max_key :: "(int \<times> nat) list \<Rightarrow> int" where
  "max_key [] = 0"
| "max_key [(k, c)] = k"
| "max_key ((k, c) # kc # rest) =
     (let m = max_key (kc # rest)
      in if c \<ge> fold max (map snd (kc # rest)) 0 then k else m)"

definition dominance_warning :: "int \<Rightarrow> rat \<Rightarrow> string" where
  "dominance_warning max_label_id max_ratio =
     ''Single label (ID: '' @ str_int max_label_id @ '') dominates segmentation ''
     @ ''('' @ fmt_percent 1 max_ratio @ '' of segmented voxels)''"

definition validate_statistics :: "int ndarray \<Rightarrow> bool \<times> string list \<times> string list" where
  "validate_statistics seg_data =
     (let unique_labels = np_unique (data seg_data)
      in if length unique_labels = 1 \<and> unique_labels ! 0 = 0 then
           (False, [], [''Segmentation is completely empty (only background)''])
         else
           (let counts = label_counts seg_data;
                warnings =
                  (if counts \<noteq> [] then
                     (let total_segmented = sum_list (map snd counts);
                          max_label_count = fold max (map snd counts) 0;
                          max_ratio =
                            (if total_segmented > 0
                             then py_truediv (int max_label_count) (int total_segmented)
                             else 0)
                      in if max_ratio > binary64 (9 / 10) then
                           [dominance_warning (max_key counts) max_ratio]
                         else [])
                   else []);
                errors = []
            in (length errors = 0, warnings, errors)))"

subsection \<open>validate_spatial_consistency\<close>

text \<open>
  \<^verbatim>\<open>[np.count_nonzero(labeled_array == i) for i in range(1, num_features + 1)]\<close>
\<close>

definition component_sizes :: "nat ndarray \<Rightarrow> nat \<Rightarrow> nat list" where
  "component_sizes labeled_array num_features =
     map (\<lambda>i. count_true (np_eq labeled_array i)) [1..<num_features + 1]"

text \<open>One pass of the loop over the labels, on the running total.\<close>

definition spatial_step :: "config \<Rightarrow> int ndarray \<Rightarrow> int \<Rightarrow> nat \<Rightarrow> nat" where
  "spatial_step cfg seg_data label_id total_small_components =
     (let label_mask = np_eq seg_data label_id;
          (labeled_array, num_features) = ndimage_label label_mask
      in if num_features > 1 then
           (let sizes = component_sizes labeled_array num_features;
                small_components =
                  filter (\<lambda>size. int size < min_voxels_per_component cfg) sizes
            in total_small_components + length small_components)
         else total_small_components)"

definition small_component_warning :: "config \<Rightarrow> nat \<Rightarrow> string" where
  "small_component_warning cfg total_small_components =
     ''Found '' @ str_nat total_small_components @ '' small isolated component(s) ''
     @ ''(< '' @ str_int (min_voxels_per_component cfg) @ '' voxels each) - possible noise''"

definition validate_spatial_consistency ::
  "config \<Rightarrow> int ndarray \<Rightarrow> bool \<times> string list \<times> string list" where
  "validate_spatial_consistency cfg seg_data =
     (let unique_labels = nonzero_labels seg_data;
          total_small_components = fold (spatial_step cfg seg_data) unique_labels 0;
          warnings =
            (if total_small_components > 0 then
               [small_component_warning cfg total_small_components]
             else []);
          errors = []
      in (length errors = 0, warnings, errors))"

section \<open>SegmentationCleaner\<close>

subsection \<open>remove_small_components\<close>

text \<open>
  The inner loop \<^verbatim>\<open>for i, size in enumerate(component_sizes, start=1)\<close> on the pair
  of the working copy and the running count.
\<close>

definition remove_component ::
  "int \<Rightarrow> nat ndarray \<Rightarrow> nat \<times> nat \<Rightarrow> int ndarray \<times> nat \<Rightarrow> int ndarray \<times> nat" where
  "remove_component min_voxels labeled_array = (\<lambda>(i, size) (cleaned_data, total_removed).
     if int size < min_voxels then
       (let component_mask = np_eq labeled_array i
        in (assign_masked cleaned_data component_mask 0, total_removed + 1))
     else (cleaned_data, total_removed))"

text \<open>One pass of the outer loop over the labels.\<close>

definition remove_label_step :: "int \<Rightarrow> int \<Rightarrow> int ndarray \<times> nat \<Rightarrow> int ndarray \<times> nat" where
  "remove_label_step min_voxels label_id = (\<lambda>(cleaned_data, total_removed).
     (let label_mask = np_eq cleaned_data label_id;
          (labeled_array, num_features) = ndimage_label label_mask
      in if num_features > 0 then
           (let sizes = component_sizes labeled_array num_features
            in fold (remove_component min_voxels labeled_array)
                 (zip [1..<num_features + 1] sizes) (cleaned_data, total_removed))
         else (cleaned_data, total_removed)))"

definition remove_small_components ::
  "config \<Rightarrow> int ndarray \<Rightarrow> int option \<Rightarrow> int ndarray \<times> nat" where
  "remove_small_components cfg seg_data min_voxels_arg =
     (let min_voxels =
            (case min_voxels_arg of None \<Rightarrow> min_voxels_per_component cfg | Some v \<Rightarrow> v);
          cleaned_data = seg_data;
          unique_labels = nonzero_labels seg_data
      in fold (remove_label_step min_voxels) unique_labels (cleaned_data, 0))"

subsection \<open>clean_artifacts\<close>

datatype py_error = IndexError

record artifact_stats =
  edge_voxels_removed :: nat
  total_cleaned :: nat

text \<open>
  The boolean mask of a face slab of thickness \<^verbatim>\<open>edge_thickness = 2\<close>:
  \<^verbatim>\<open>slice(0, 2)\<close> along the axis at the low end, \<^verbatim>\<open>slice(-2, None)\<close> at the high
  end.  On an axis shorter than 2 both slices take the whole axis.
\<close>

definition edge_mask :: "int ndarray \<Rightarrow> nat \<Rightarrow> bool \<Rightarrow> bool ndarray" where
  "edge_mask cleaned_data axis high =
     \<lparr>shape = shape cleaned_data,
      data = map (\<lambda>i. let c = unravel_index i (shape cleaned_data) ! axis
                      in if high then shape cleaned_data ! axis - 2 \<le> c else c < 2)
               [0..<length (data cleaned_data)]\<rparr>"

text \<open>\<^verbatim>\<open>np.prod(cleaned_data[tuple(edge_slice)].shape)\<close>\<close>

definition slab_size :: "nat list \<Rightarrow> nat \<Rightarrow> nat" where
  "slab_size shp axis = prod_list (shp[axis := min 2 (shp ! axis)])"

text \<open>\<^verbatim>\<open>edge_mask & (cleaned_data > 0)\<close>\<close>

definition positive_in :: "bool ndarray \<Rightarrow> int ndarray \<Rightarrow> bool ndarray" where
  "positive_in selected a =
     \<lparr>shape = shape a, data = map (\<lambda>(b, x). b \<and> x > 0) (zip (data selected) (data a))\<rparr>"

text \<open>
  One face: the block of the loop body for the start (\<open>high = False\<close>) or the end
  (\<open>high = True\<close>) of the axis, on the working copy and the running count.
\<close>

definition clean_face :: "nat \<Rightarrow> bool \<Rightarrow> int ndarray \<times> nat \<Rightarrow> int ndarray \<times> nat" where
  "clean_face axis high = (\<lambda>(cleaned_data, removed).
     (let slab = edge_mask cleaned_data axis high;
          edge_voxels = count_true (positive_in slab cleaned_data)
      in if edge_voxels > 0 then
           (let edge_ratio =
                  (of_nat edge_voxels :: rat) / of_nat (slab_size (shape cleaned_data) axis)
            in if edge_ratio < 1 / 10 then
                 (assign_masked cleaned_data (positive_in slab cleaned_data) 0,
                  removed + edge_voxels)
               else (cleaned_data, removed))
         else (cleaned_data, removed)))"

definition clean_dim :: "nat \<Rightarrow> int ndarray \<times> nat \<Rightarrow> int ndarray \<times> nat" where
  "clean_dim axis st = clean_face axis True (clean_face axis False st)"

text \<open>
  Indexing an array of fewer than three axes with three slices raises
  \<^verbatim>\<open>IndexError\<close>, in the first pass of the loop.
\<close>

definition clean_artifacts :: "int ndarray \<Rightarrow> py_error + int ndarray \<times> artifact_stats" where
  "clean_artifacts seg_data =
     (if length (shape seg_data) < 3 then Inl IndexError
      else
        (let cleaned_data = seg_data;
             (cleaned_data, removed) = fold clean_dim [0..<3] (cleaned_data, 0);
             stats = \<lparr>edge_voxels_removed = removed, total_cleaned = removed\<rparr>
         in Inr (cleaned_data, stats)))"

subsection \<open>The cleaner on arrays in memory\<close>

text \<open>
  NumPy arrays are mutable objects, and the cleaner assigns into one
  (\<^verbatim>\<open>cleaned_data[component_mask] = 0\<close>).  To see which object it writes to, the
  integer arrays live in a store: an address is an index into the list of allocated
  arrays, \<^verbatim>\<open>seg_data.copy()\<close> allocates a new one, and an assignment through a mask
  updates the array at an address in place.  Masks and labelled arrays are temporaries
  that nothing else refers to; they stay values.
\<close>

type_synonym addr = nat
type_synonym store = "int ndarray list"

definition np_copy :: "store \<Rightarrow> addr \<Rightarrow> store \<times> addr" where
  "np_copy h a = (h @ [h ! a], length h)"

definition store_assign_masked :: "store \<Rightarrow> addr \<Rightarrow> bool ndarray \<Rightarrow> int \<Rightarrow> store" where
  "store_assign_masked h a selected v = h[a := assign_masked (h ! a) selected v]"

definition remove_component_store ::
  "int \<Rightarrow> nat ndarray \<Rightarrow> addr \<Rightarrow> nat \<times> nat \<Rightarrow> store \<times> nat \<Rightarrow> store \<times> nat" where
  "remove_component_store min_voxels labeled_array cleaned_data = (\<lambda>(i, size) (h, total_removed).
     if int size < min_voxels then
       (let component_mask = np_eq labeled_array i
        in (store_assign_masked h cleaned_data component_mask 0, total_removed + 1))
     else (h, total_removed))"

definition remove_label_step_store ::
  "int \<Rightarrow> addr \<Rightarrow> int \<Rightarrow> store \<times> nat \<Rightarrow> store \<times> nat" where
  "remove_label_step_store min_voxels cleaned_data label_id = (\<lambda>(h, total_removed).
     (let label_mask = np_eq (h ! cleaned_data) label_id;
          (labeled_array, num_features) = ndimage_label label_mask
      in if num_features > 0 then
           (let sizes = component_sizes labeled_array num_features
            in fold (remove_component_store min_voxels labeled_array cleaned_data)
                 (zip [1..<num_features + 1] sizes) (h, total_removed))
         else (h, total_removed)))"

definition remove_small_components_store ::
  "config \<Rightarrow> store \<Rightarrow> addr \<Rightarrow> int option \<Rightarrow> store \<times> addr \<times> nat" where
  "remove_small_components_store cfg h seg_data min_voxels_arg =
     (let min_voxels =
            (case min_voxels_arg of None \<Rightarrow> min_voxels_per_component cfg | Some v \<Rightarrow> v);
          (h, cleaned_data) = np_copy h seg_data;
          unique_labels = nonzero_labels (h ! seg_data);
          (h, total_removed) =
            fold (remove_label_step_store min_voxels cleaned_data) unique_labels (h, 0)
      in (h, cleaned_data, total_removed))"

definition clean_face_store :: "addr \<Rightarrow> nat \<Rightarrow> bool \<Rightarrow> store \<times> nat \<Rightarrow> store \<times> nat" where
  "clean_face_store cleaned_data axis high = (\<lambda>(h, removed).
     (let slab = edge_mask (h ! cleaned_data) axis high;
          edge_voxels = count_true (positive_in slab (h ! cleaned_data))
      in if edge_voxels > 0 then
           (let edge_ratio =
                  (of_nat edge_voxels :: rat)
                    / of_nat (slab_size (shape (h ! cleaned_data)) axis)
            in if edge_ratio < 1 / 10 then
                 (store_assign_masked h cleaned_data
                    (positive_in slab (h ! cleaned_data)) 0,
                  removed + edge_voxels)
               else (h, removed))
         else (h, removed)))"

definition clean_dim_store :: "addr \<Rightarrow> nat \<Rightarrow> store \<times> nat \<Rightarrow> store \<times> nat" where
  "clean_dim_store cleaned_data axis st =
     clean_face_store cleaned_data axis True (clean_face_store cleaned_data axis False st)"

text \<open>The copy is made before the first indexing, so it exists also when that raises.\<close>

definition clean_artifacts_store ::
  "store \<Rightarrow> addr \<Rightarrow> store \<times> (py_error + addr \<times> artifact_stats)" where
  "clean_artifacts_store h seg_data =
     (let (h, cleaned_data) = np_copy h seg_data
      in if length (shape (h ! cleaned_data)) < 3 then (h, Inl IndexError)
         else
           (let (h, removed) = fold (clean_dim_store cleaned_data) [0..<3] (h, 0);
                stats = \<lparr>edge_voxels_removed = removed, total_cleaned = removed\<rparr>
            in (h, Inr (cleaned_data, stats))))"

section \<open>validate_and_clean\<close>

record stats =
  total_voxels :: nat
  segmented_voxels :: nat
  segmentation_ratio :: rat
  num_labels :: nat
  label_ids :: "int list"
  components_removed :: "nat option"
  artifacts_removed :: "nat option"

record validation_result =
  valid :: bool
  warnings :: "string list"
  errors :: "string list"
  stats :: stats
  cleaned :: bool
  cleaned_img :: "int nifti_image option"

text \<open>
  The calls \<^verbatim>\<open>validate_and_clean\<close> makes to the cleaner, in order, each with the array
  it passes.  The run returns them beside the outcome.
\<close>

datatype cleaner_call = RemoveSmallComponents "int ndarray" | CleanArtifacts "int ndarray"

definition validate_and_clean_run ::
  "int nifti_image \<Rightarrow> 'a nifti_image option \<Rightarrow> label_dict \<Rightarrow> config
     \<Rightarrow> cleaner_call list \<times> (py_error + validation_result)" where
  "validate_and_clean_run segmentation_img input_img label_dict cfg =
     (let seg_data = img segmentation_img;
          n_total = np_size seg_data;
          unique_labels = nonzero_labels seg_data;
          n_segmented = count_nonzero seg_data;
          stats0 =
            \<lparr>total_voxels = n_total,
             segmented_voxels = n_segmented,
             segmentation_ratio =
               (if n_total > 0 then py_truediv (int n_segmented) (int n_total) else 0),
             num_labels = length unique_labels,
             label_ids = unique_labels,
             components_removed = None,
             artifacts_removed = None\<rparr>;
          (dim_valid, dim_errors) = validate_dimensions segmentation_img input_img;
          (label_valid, label_warnings, label_errors) = validate_labels seg_data label_dict;
          (voxel_valid, voxel_warnings, voxel_errors) =
            validate_voxel_counts cfg seg_data label_dict (int n_total);
          (spatial_valid, spatial_warnings, spatial_errors) =
            validate_spatial_consistency cfg seg_data;
          (stats_valid, stats_warnings, stats_errors) = validate_statistics seg_data;
          all_warnings = label_warnings @ voxel_warnings @ spatial_warnings @ stats_warnings;
          all_errors =
            dim_errors @ label_errors @ voxel_errors @ spatial_errors @ stats_errors;
          result =
            \<lparr>valid = (length all_errors = 0), warnings = all_warnings, errors = all_errors,
             stats = stats0, cleaned = False, cleaned_img = None\<rparr>;
          enable_cleanup = (case cfg_enable_cleanup cfg of Some b \<Rightarrow> b | None \<Rightarrow> True)
      in if enable_cleanup \<and> (length all_warnings > 0 \<or> length all_errors > 0) then
           (let (cleaned_data, num_removed) = remove_small_components cfg seg_data None
            in case clean_artifacts cleaned_data of
                 Inl e \<Rightarrow>
                   ([RemoveSmallComponents seg_data, CleanArtifacts cleaned_data], Inl e)
               | Inr (cleaned_data', artifact_stats) \<Rightarrow>
                   ([RemoveSmallComponents seg_data, CleanArtifacts cleaned_data],
                    Inr (if num_removed > 0 \<or> total_cleaned artifact_stats > 0 then
                           result
                             \<lparr>cleaned_img :=
                                Some \<lparr>img = cleaned_data', affine = affine segmentation_img\<rparr>,
                              cleaned := True,
                              stats :=
                                stats0
                                  \<lparr>components_removed := Some num_removed,
                                   artifacts_removed := Some (total_cleaned artifact_stats)\<rparr>\<rparr>
                         else result)))
         else ([], Inr result))"

definition validate_and_clean ::
  "int nifti_image \<Rightarrow> 'a nifti_image option \<Rightarrow> label_dict \<Rightarrow> config
     \<Rightarrow> py_error + validation_result" where
  "validate_and_clean segmentation_img input_img label_dict cfg =
     snd (validate_and_clean_run segmentation_img input_img label_dict cfg)"

section \<open>Notions used in the statements\<close>

text \<open>The nonzero label IDs of the volume that the catalog does not know.\<close>

definition unknown_ids :: "int ndarray \<Rightarrow> label_dict \<Rightarrow> int set" where
  "unknown_ids seg_data label_dict = {l \<in> set (data seg_data). l \<noteq> 0 \<and> label_dict l = None}"

text \<open>Two concrete inputs of the label check.\<close>

definition catalog_5_7 :: label_dict where
  "catalog_5_7 = [5 \<mapsto> \<lparr>name = Some ''liver'', color = [220, 20, 60]\<rparr>,
                  7 \<mapsto> \<lparr>name = Some ''spleen'', color = [0, 128, 0]\<rparr>]"

definition volume_5_7_9999 :: "int ndarray" where
  "volume_5_7_9999 = \<lparr>shape = [1, 2, 2], data = [5, 7, 9999, 0]\<rparr>"

definition volume_30_to_50 :: "int ndarray" where
  "volume_30_to_50 =
     \<lparr>shape = [1, 3, 7],
      data = [30, 31, 32, 33, 34, 35, 36, 37, 38, 39, 40, 41, 42, 43, 44, 45, 46, 47, 48, 49, 50]\<rparr>"

text \<open>The configuration with every key absent: all thresholds take their defaults.\<close>

definition default_config :: config where
  "default_config =
     \<lparr>cfg_min_voxels_per_label = None, cfg_min_voxels_per_component = None,
      cfg_max_segmentation_ratio = None, cfg_min_segmentation_ratio = None,
      cfg_enable_cleanup = None\<rparr>"

text \<open>Volumes of 20 voxels with 19 and with 20 voxels of label 1.\<close>

definition volume_19_of_20 :: "int ndarray" where
  "volume_19_of_20 =
     \<lparr>shape = [1, 4, 5], data = [1, 1, 1, 1, 1, 1, 1, 1, 1, 1, 1, 1, 1, 1, 1, 1, 1, 1, 1, 0]\<rparr>"

definition volume_20_of_20 :: "int ndarray" where
  "volume_20_of_20 =
     \<lparr>shape = [1, 4, 5], data = [1, 1, 1, 1, 1, 1, 1, 1, 1, 1, 1, 1, 1, 1, 1, 1, 1, 1, 1, 1]\<rparr>"

text \<open>
  Voxel \<open>i\<close> (an index into the C-order element list) lies in the face slab at the
  low or at the high end of an axis; the number of strictly positive voxels of an array
  in that slab.
\<close>

definition in_slab :: "nat list \<Rightarrow> nat \<Rightarrow> bool \<Rightarrow> nat \<Rightarrow> bool" where
  "in_slab shp axis high i =
     (if high then shp ! axis - 2 \<le> unravel_index i shp ! axis
      else unravel_index i shp ! axis < 2)"

definition slab_positive :: "int ndarray \<Rightarrow> nat \<Rightarrow> bool \<Rightarrow> nat" where
  "slab_positive a axis high =
     length (filter (\<lambda>i. in_slab (shape a) axis high i \<and> data a ! i > 0)
               [0..<length (data a)])"

text \<open>
  Three inputs of the artifact cleaner: one positive voxel in a slab of 12, one positive
  voxel in a slab of 10, and one negative voxel in a slab of 12.
\<close>

definition volume_1_in_12 :: "int ndarray" where
  "volume_1_in_12 = \<lparr>shape = [2, 2, 3], data = [0, 0, 0, 0, 0, 0, 0, 0, 0, 0, 0, 3]\<rparr>"

definition volume_1_in_10 :: "int ndarray" where
  "volume_1_in_10 = \<lparr>shape = [2, 1, 5], data = [0, 0, 0, 0, 0, 0, 0, 0, 0, 3]\<rparr>"

definition volume_negative_in_12 :: "int ndarray" where
  "volume_negative_in_12 = \<lparr>shape = [2, 2, 3], data = [0, 0, 0, 0, 0, 0, 0, 0, 0, 0, 0, - 3]\<rparr>"

text \<open>
  The merged lists of \<^verbatim>\<open>validate_and_clean\<close>: the warnings and the errors of the five
  checks, in the order in which the checks run.
\<close>

definition merged_warnings :: "int ndarray \<Rightarrow> label_dict \<Rightarrow> config \<Rightarrow> string list" where
  "merged_warnings seg_data label_dict cfg =
     fst (snd (validate_labels seg_data label_dict))
     @ fst (snd (validate_voxel_counts cfg seg_data label_dict (int (np_size seg_data))))
     @ fst (snd (validate_spatial_consistency cfg seg_data))
     @ fst (snd (validate_statistics seg_data))"

definition merged_errors ::
  "int nifti_image \<Rightarrow> 'a nifti_image option \<Rightarrow> label_dict \<Rightarrow> config \<Rightarrow> string list" where
  "merged_errors segmentation_img input_img label_dict cfg =
     snd (validate_dimensions segmentation_img input_img)
     @ snd (snd (validate_labels (img segmentation_img) label_dict))
     @ snd (snd (validate_voxel_counts cfg (img segmentation_img) label_dict
                  (int (np_size (img segmentation_img)))))
     @ snd (snd (validate_spatial_consistency cfg (img segmentation_img)))
     @ snd (snd (validate_statistics (img segmentation_img)))"

text \<open>\<^verbatim>\<open>config.get('enable_cleanup', True)\<close>, and the condition under which cleanup runs.\<close>

definition cleanup_enabled :: "config \<Rightarrow> bool" where
  "cleanup_enabled cfg = (case cfg_enable_cleanup cfg of Some b \<Rightarrow> b | None \<Rightarrow> True)"

definition cleanup_attempted ::
  "int nifti_image \<Rightarrow> 'a nifti_image option \<Rightarrow> label_dict \<Rightarrow> config \<Rightarrow> bool" where
  "cleanup_attempted segmentation_img input_img label_dict cfg \<longleftrightarrow>
     cleanup_enabled cfg
     \<and> (merged_warnings (img segmentation_img) label_dict cfg \<noteq> []
        \<or> merged_errors segmentation_img input_img label_dict cfg \<noteq> [])"

text \<open>The result as it stands before the cleanup branch.\<close>

definition base_result ::
  "int nifti_image \<Rightarrow> 'a nifti_image option \<Rightarrow> label_dict \<Rightarrow> config \<Rightarrow> validation_result" where
  "base_result segmentation_img input_img label_dict cfg =
     \<lparr>valid = (merged_errors segmentation_img input_img label_dict cfg = []),
      warnings = merged_warnings (img segmentation_img) label_dict cfg,
      errors = merged_errors segmentation_img input_img label_dict cfg,
      stats =
        \<lparr>total_voxels = np_size (img segmentation_img),
         segmented_voxels = count_nonzero (img segmentation_img),
         segmentation_ratio =
           (if np_size (img segmentation_img) > 0
            then py_truediv (int (count_nonzero (img segmentation_img)))
                   (int (np_size (img segmentation_img)))
            else 0),
         num_labels = length (nonzero_labels (img segmentation_img)),
         label_ids = nonzero_labels (img segmentation_img),
         components_removed = None,
         artifacts_removed = None\<rparr>,
      cleaned = False, cleaned_img = None\<rparr>"

text \<open>
  Inputs of the orchestrator: a 3 by 3 slice with two labels, an all-background volume,
  and a volume holding the single label 4.
\<close>

definition identity_affine :: "rat list" where
  "identity_affine = [1, 0, 0, 0, 0, 1, 0, 0, 0, 0, 1, 0, 0, 0, 0, 1]"

definition image_two_labels :: "int nifti_image" where
  "image_two_labels =
     \<lparr>img = \<lparr>shape = [1, 3, 3], data = [1, 1, 0, 0, 0, 1, 2, 0, 1]\<rparr>, affine = identity_affine\<rparr>"


definition image_single_label :: "int nifti_image" where
  "image_single_label =
     \<lparr>img = \<lparr>shape = [1, 2, 2], data = [0, 4, 4, 0]\<rparr>, affine = identity_affine\<rparr>"

definition no_input_image :: "int nifti_image option" where
  "no_input_image = None"

section \<open>Properties\<close>

subsection \<open>Sorted distinct label lists\<close>

lemma np_unique_set [simp]: "set (np_unique xs) = set xs"
  by (simp add: np_unique_def)

lemma np_unique_sorted [simp]: "sorted (np_unique xs)"
  by (simp add: np_unique_def)

lemma np_unique_distinct [simp]: "distinct (np_unique xs)"
  by (simp add: np_unique_def)

lemma filter_np_unique:
  "filter P (np_unique xs) = sorted_list_of_set {x \<in> set xs. P x}"
proof -
  let ?ys = "filter P (np_unique xs)"
  have s: "set ?ys = {x \<in> set xs. P x}" by auto
  have "sorted_list_of_set (set ?ys) = ?ys"
    by (rule sorted_list_of_set.idem_if_sorted_distinct)
       (simp_all add: sorted_filter [where f = "\<lambda>x. x", simplified])
  then show ?thesis by (simp only: s)
qed

lemma nonzero_labels_set [simp]:
  "set (nonzero_labels a) = {l \<in> set (data a). l \<noteq> 0}"
  by (auto simp: nonzero_labels_def)

lemma nonzero_labels_distinct [simp]: "distinct (nonzero_labels a)"
  by (simp add: nonzero_labels_def)

lemma nonzero_labels_sorted [simp]: "sorted (nonzero_labels a)"
  by (simp add: nonzero_labels_def sorted_filter [where f = "\<lambda>x. x", simplified])

lemma filter_nonzero_labels:
  "filter P (nonzero_labels a) = sorted_list_of_set {l \<in> set (data a). l \<noteq> 0 \<and> P l}"
proof -
  have "filter P (nonzero_labels a) = filter (\<lambda>l. l \<noteq> 0 \<and> P l) (np_unique (data a))"
    by (simp add: nonzero_labels_def)
  also have "\<dots> = sorted_list_of_set {l \<in> set (data a). l \<noteq> 0 \<and> P l}"
    by (rule filter_np_unique)
  finally show ?thesis .
qed

subsection \<open>The label legality check\<close>

lemma unknown_ids_finite [simp]: "finite (unknown_ids seg_data label_dict)"
  by (simp add: unknown_ids_def)

lemma unknown_labels_sorted_list:
  "filter (\<lambda>l. label_dict l = None) (nonzero_labels seg_data)
     = sorted_list_of_set (unknown_ids seg_data label_dict)"
  by (simp add: filter_nonzero_labels unknown_ids_def)

text \<open>
  Claim C7, as the code has it.  The label check yields no warning when every nonzero
  label ID of the volume is in the catalog.  Otherwise it yields exactly one warning:
  the total number of unknown IDs, then the first ten of them in ascending order, then
  the note \<^verbatim>\<open>(showing first 10)\<close> when there are more than ten.  The message holds no
  count of the IDs left out.  For a volume whose nonzero IDs are 5, 7 and 9999 and a
  catalog that knows 5 and 7 but not 9999, the one warning cites the count 1 and the
  ID 9999.
\<close>

theorem validate_labels_unknown_warning:
  "fst (snd (validate_labels seg_data label_dict)) =
     (if unknown_ids seg_data label_dict = {} then []
      else [''Found '' @ str_nat (card (unknown_ids seg_data label_dict))
            @ '' unknown label(s): ''
            @ py_list_str (take 10 (sorted_list_of_set (unknown_ids seg_data label_dict)))
            @ (if card (unknown_ids seg_data label_dict) > 10
               then '' (showing first 10)'' else [])])
   \<and> (unknown_ids seg_data label_dict = {9999} \<longrightarrow>
        fst (snd (validate_labels seg_data label_dict)) = [''Found 1 unknown label(s): [9999]''])"
proof -
  have general: "fst (snd (validate_labels seg_data label_dict)) =
     (if unknown_ids seg_data label_dict = {} then []
      else [''Found '' @ str_nat (card (unknown_ids seg_data label_dict))
            @ '' unknown label(s): ''
            @ py_list_str (take 10 (sorted_list_of_set (unknown_ids seg_data label_dict)))
            @ (if card (unknown_ids seg_data label_dict) > 10
               then '' (showing first 10)'' else [])])"
    by (simp add: validate_labels_def Let_def unknown_labels_sorted_list)
  have one: "str_nat (Suc 0) = ''1''" "py_list_str [9999] = ''[9999]''"
    by code_simp+
  have "fst (snd (validate_labels seg_data label_dict)) = [''Found 1 unknown label(s): [9999]'']"
    if "unknown_ids seg_data label_dict = {9999}"
    unfolding general that by (simp add: one)
  with general show ?thesis by blast
qed

lemma unknown_ids_volume_5_7_9999: "unknown_ids volume_5_7_9999 catalog_5_7 = {9999}"
  by (auto simp: unknown_ids_def volume_5_7_9999_def catalog_5_7_def)

theorem validate_labels_unknown_warning_witness:
  "unknown_ids volume_5_7_9999 catalog_5_7 = {9999}
   \<and> fst (snd (validate_labels volume_5_7_9999 catalog_5_7)) = [''Found 1 unknown label(s): [9999]'']"
  using validate_labels_unknown_warning [of volume_5_7_9999 catalog_5_7]
        unknown_ids_volume_5_7_9999
  by blast

text \<open>
  The claim as written asks for a count of the remainder.  With 21 unknown IDs, ten are
  listed and eleven are left out; the warning cites 21 and nowhere the number 11.
\<close>

theorem validate_labels_remainder_counterexample:
  "fst (snd (validate_labels volume_30_to_50 Map.empty)) =
     [''Found 21 unknown label(s): [30, 31, 32, 33, 34, 35, 36, 37, 38, 39] (showing first 10)'']
   \<and> card (unknown_ids volume_30_to_50 Map.empty) - 10 = 11
   \<and> \<not> sublist (str_nat 11) (hd (fst (snd (validate_labels volume_30_to_50 Map.empty))))"
proof -
  have w: "fst (snd (validate_labels volume_30_to_50 Map.empty)) =
     [''Found 21 unknown label(s): [30, 31, 32, 33, 34, 35, 36, 37, 38, 39] (showing first 10)'']"
    by code_simp
  have c: "card (unknown_ids volume_30_to_50 Map.empty) - 10 = 11"
    by code_simp
  have s: "\<not> sublist (str_nat 11)
      ''Found 21 unknown label(s): [30, 31, 32, 33, 34, 35, 36, 37, 38, 39] (showing first 10)''"
    by code_simp
  show ?thesis unfolding w using c s by simp
qed

subsection \<open>Rounding to binary64\<close>

lemma round_half_even_error: "\<bar>of_int (round_half_even z) - z\<bar> \<le> 1 / 2"
proof -
  have "of_int \<lfloor>z\<rfloor> \<le> z" "z < of_int \<lfloor>z\<rfloor> + 1" by linarith+
  then show ?thesis by (auto simp: round_half_even_def Let_def)
qed

lemma floor_log2_bounds:
  assumes "0 < x"
  shows "2 powi (floor_log2 x) \<le> x \<and> x < 2 powi (floor_log2 x + 1)"
proof -
  obtain p q where pq: "quotient_of x = (p, q)" by (cases "quotient_of x")
  then have q: "0 < q" and x: "x = of_int p / of_int q"
    by (simp_all add: quotient_of_denom_pos quotient_of_div)
  with assms have p: "0 < p" by (simp add: zero_less_divide_iff)
  define k where "k = bitlen p - bitlen q"
  have bp: "1 \<le> bitlen p" and bq: "1 \<le> bitlen q"
    using p q by (simp_all add: bitlen_alt_def)
  have plo: "(2::rat) powi (bitlen p - 1) \<le> of_int p" and phi: "of_int p < (2::rat) powi (bitlen p)"
  proof -
    have "2 ^ nat (bitlen p - 1) \<le> p" "p < 2 ^ nat (bitlen p)"
      using bitlen_bounds [OF p] by simp_all
    then have "(of_int (2 ^ nat (bitlen p - 1)) :: rat) \<le> of_int p"
      "(of_int p :: rat) < of_int (2 ^ nat (bitlen p))"
      by (simp_all only: of_int_le_iff of_int_less_iff)
    then show "(2::rat) powi (bitlen p - 1) \<le> of_int p" "of_int p < (2::rat) powi (bitlen p)"
      using bp by (simp_all add: power_int_def)
  qed
  have qlo: "(2::rat) powi (bitlen q - 1) \<le> of_int q" and qhi: "of_int q < (2::rat) powi (bitlen q)"
  proof -
    have "2 ^ nat (bitlen q - 1) \<le> q" "q < 2 ^ nat (bitlen q)"
      using bitlen_bounds [OF q] by simp_all
    then have "(of_int (2 ^ nat (bitlen q - 1)) :: rat) \<le> of_int q"
      "(of_int q :: rat) < of_int (2 ^ nat (bitlen q))"
      by (simp_all only: of_int_le_iff of_int_less_iff)
    then show "(2::rat) powi (bitlen q - 1) \<le> of_int q" "of_int q < (2::rat) powi (bitlen q)"
      using bq by (simp_all add: power_int_def)
  qed
  have pos: "(0::rat) < of_int q" "(0::rat) < of_int p" using p q by simp_all
  have up: "x < 2 powi (k + 1)"
  proof -
    have "x < 2 powi (bitlen p) / 2 powi (bitlen q - 1)"
      unfolding x using phi qlo pos by (intro frac_less) simp_all
    also have "\<dots> = 2 powi (bitlen p - (bitlen q - 1))"
      by (simp add: power_int_diff)
    also have "bitlen p - (bitlen q - 1) = k + 1" by (simp add: k_def)
    finally show ?thesis .
  qed
  have lo: "2 powi (k - 1) \<le> x"
  proof -
    have "(2::rat) powi (k - 1) = 2 powi (bitlen p - 1 - bitlen q)" by (simp add: k_def algebra_simps)
    also have "\<dots> = 2 powi (bitlen p - 1) / 2 powi (bitlen q)"
      by (simp add: power_int_diff)
    also have "\<dots> \<le> x"
      unfolding x using plo qhi pos by (intro frac_le) simp_all
    finally show ?thesis .
  qed
  have e: "floor_log2 x = (if 2 powi k \<le> x then k else k - 1)"
    by (simp add: floor_log2_def pq k_def Let_def)
  show ?thesis
  proof (cases "2 powi k \<le> x")
    case True
    with e up show ?thesis by simp
  next
    case False
    with e lo show ?thesis by simp
  qed
qed

lemma binary64_error:
  assumes "2 powi (- 1022) \<le> x"
  shows "\<bar>binary64 x - x\<bar> \<le> x / 2 ^ 53"
proof -
  have x: "0 < x" using assms zero_less_power_int [of "2::rat" "- 1022"] by linarith
  define e where "e = floor_log2 x"
  have b: "2 powi e \<le> x" "x < 2 powi (e + 1)"
    using floor_log2_bounds [OF x] by (simp_all add: e_def)
  have e: "- 1022 \<le> e"
  proof (rule ccontr)
    assume "\<not> - 1022 \<le> e"
    then have "e + 1 \<le> - 1022" by simp
    then have "(2::rat) powi (e + 1) \<le> 2 powi (- 1022)" by (intro power_int_increasing) simp_all
    with b assms show False by linarith
  qed
  define u where "u = (2::rat) powi (e - 52)"
  have u: "0 < u" by (simp add: u_def)
  have b64: "binary64 x = of_int (round_half_even (x / u)) * u"
    using x e by (simp add: binary64_def Let_def e_def [symmetric] u_def max_def)
  have "binary64 x - x = (of_int (round_half_even (x / u)) - x / u) * u"
    using u by (simp add: b64 field_simps)
  then have "\<bar>binary64 x - x\<bar> = \<bar>of_int (round_half_even (x / u)) - x / u\<bar> * u"
    using u by (simp add: abs_mult)
  also have "\<dots> \<le> 1 / 2 * u"
    using round_half_even_error [of "x / u"] u by (intro mult_right_mono) simp_all
  also have "1 / 2 * u = 2 powi e / 2 ^ 53"
  proof -
    have "u = 2 powi e / 2 powi 52" by (simp add: u_def power_int_diff)
    then show ?thesis by simp
  qed
  also have "\<dots> \<le> x / 2 ^ 53" using b by (simp add: divide_right_mono)
  finally show ?thesis .
qed

lemma binary64_zero [simp]: "binary64 0 = 0"
  by (simp add: binary64_def)

lemma binary64_increase:
  assumes t: "0 < t" "t < 2 ^ 52" and q: "q \<le> 1" "q = 0 \<or> 2 powi (- 1022) \<le> q"
  shows "binary64 q < binary64 (q + 1 / of_int t)"
proof -
  have tr: "(0::rat) < of_int t" using t by simp
  have "t \<le> 2 ^ 52 - 1" using t by simp
  then have "(of_int t :: rat) \<le> of_int (2 ^ 52 - 1)" by (simp only: of_int_le_iff)
  then have tle: "(of_int t :: rat) \<le> 2 ^ 52 - 1" by simp
  have d: "1 / (2 ^ 52 - 1) \<le> 1 / (of_int t :: rat)"
    using tr tle by (intro divide_left_mono) simp_all
  have small: "(2::rat) powi (- 1022) \<le> 1 / (2 ^ 52 - 1)"
  proof -
    have "(2::rat) powi (- 1022) \<le> 2 powi (- 52)" by (intro power_int_increasing) simp_all
    also have "\<dots> = 1 / 2 ^ 52" by (simp add: power_int_def field_simps)
    also have "\<dots> \<le> 1 / (2 ^ 52 - 1)" by simp
    finally show ?thesis .
  qed
  from q(2) show ?thesis
  proof
    assume z: "q = 0"
    have n: "2 powi (- 1022) \<le> 1 / (of_int t :: rat)" using small d by linarith
    define dd where "dd = 1 / (of_int t :: rat)"
    have dd: "0 < dd" using tr by (simp add: dd_def)
    from binary64_error [OF n] have "dd - dd / 2 ^ 53 \<le> binary64 dd"
      unfolding dd_def by linarith
    moreover have "dd / 2 ^ 53 < dd" using dd by simp
    ultimately have "0 < binary64 dd" by linarith
    then show ?thesis using z by (simp add: dd_def)
  next
    assume n: "2 powi (- 1022) \<le> q"
    have q0: "0 < q" using n zero_less_power_int [of "2::rat" "- 1022"] by linarith
    have dpos: "0 < 1 / (of_int t :: rat)" using tr by simp
    have ny: "2 powi (- 1022) \<le> q + 1 / of_int t" using n dpos by linarith
    from binary64_error [OF n] have a: "binary64 q \<le> q + q / 2 ^ 53" by linarith
    from binary64_error [OF ny]
    have b: "(q + 1 / of_int t) - (q + 1 / of_int t) / 2 ^ 53 \<le> binary64 (q + 1 / of_int t)"
      by linarith
    have "q + q / 2 ^ 53 < (q + 1 / of_int t) - (q + 1 / of_int t) / 2 ^ 53"
      using q(1) d by (simp add: field_simps)
    with a b show ?thesis by linarith
  qed
qed

subsection \<open>The voxel-count check\<close>

lemma digit_char_neq_o: "d < 10 \<Longrightarrow> digit_char d \<noteq> CHR ''o''"
proof
  assume d: "d < 10" and e: "digit_char d = CHR ''o''"
  then have "of_char (digit_char d) = (of_char CHR ''o'' :: nat)" by simp
  with d show False by (simp add: digit_char_def)
qed

lemma str_nat_hd: "str_nat n \<noteq> [] \<and> hd (str_nat n) \<noteq> CHR ''o''"
proof (induction n rule: str_nat.induct)
  case (1 n)
  show ?case
  proof (cases "n < 10")
    case True
    then show ?thesis by (subst (1 2) str_nat.simps) (simp add: digit_char_neq_o)
  next
    case False
    with 1 show ?thesis by (subst (1 2) str_nat.simps) simp
  qed
qed

lemma fmt_percent_hd: "\<exists>c cs. fmt_percent d x = c # cs \<and> c \<noteq> CHR ''o''"
proof -
  define m where "m = nat \<bar>round_half_even (binary64 (x * 100) * 10 ^ d)\<bar>"
  obtain c cs where "str_nat (m div 10 ^ d) = c # cs" "c \<noteq> CHR ''o''"
    using str_nat_hd [of "m div 10 ^ d"] by (cases "str_nat (m div 10 ^ d)") auto
  then show ?thesis by (simp add: fmt_percent_def Let_def m_def [symmetric])
qed

lemma over_neq_under: "over_segmentation_warning cfg r \<noteq> under_segmentation_warning cfg' r'"
proof -
  obtain c cs where "fmt_percent 1 r = c # cs" "c \<noteq> CHR ''o''" using fmt_percent_hd by blast
  then show ?thesis by (simp add: over_segmentation_warning_def under_segmentation_warning_def)
qed

lemma over_take6: "take 6 (over_segmentation_warning cfg r) = ''Segmen''"
  by (simp add: over_segmentation_warning_def)

lemma voxel_warnings_shape:
  "\<exists>ws. fst (snd (validate_voxel_counts cfg seg_data label_dict t)) =
     (if (if t > 0 then py_truediv (int (count_nonzero seg_data)) t else 0) > max_segmentation_ratio cfg
      then [over_segmentation_warning cfg (if t > 0 then py_truediv (int (count_nonzero seg_data)) t else 0)]
      else if (if t > 0 then py_truediv (int (count_nonzero seg_data)) t else 0) < min_segmentation_ratio cfg
      then [under_segmentation_warning cfg (if t > 0 then py_truediv (int (count_nonzero seg_data)) t else 0)]
      else []) @ ws
   \<and> (\<forall>w\<in>set ws. take 6 w = ''Found '')"
  by (simp add: validate_voxel_counts_def Let_def)

lemma over_warning_iff:
  "(\<exists>r. over_segmentation_warning cfg r
          \<in> set (fst (snd (validate_voxel_counts cfg seg_data label_dict t))))
     \<longleftrightarrow> (if t > 0 then py_truediv (int (count_nonzero seg_data)) t else 0) > max_segmentation_ratio cfg"
proof -
  obtain ws where ws: "fst (snd (validate_voxel_counts cfg seg_data label_dict t)) =
     (if (if t > 0 then py_truediv (int (count_nonzero seg_data)) t else 0) > max_segmentation_ratio cfg
      then [over_segmentation_warning cfg (if t > 0 then py_truediv (int (count_nonzero seg_data)) t else 0)]
      else if (if t > 0 then py_truediv (int (count_nonzero seg_data)) t else 0) < min_segmentation_ratio cfg
      then [under_segmentation_warning cfg (if t > 0 then py_truediv (int (count_nonzero seg_data)) t else 0)]
      else []) @ ws" and found: "\<forall>w\<in>set ws. take 6 w = ''Found ''"
    using voxel_warnings_shape by blast
  have notin: "over_segmentation_warning cfg r \<notin> set ws" for r
  proof
    assume "over_segmentation_warning cfg r \<in> set ws"
    with found have "take 6 (over_segmentation_warning cfg r) = ''Found ''" by blast
    then show False by (simp add: over_take6)
  qed
  show ?thesis unfolding ws using notin by (auto simp: over_neq_under)
qed

lemma over_warning_present:
  assumes "(if t > 0 then py_truediv (int (count_nonzero seg_data)) t else 0) > max_segmentation_ratio cfg"
  shows "over_segmentation_warning cfg (if t > 0 then py_truediv (int (count_nonzero seg_data)) t else 0)
           \<in> set (fst (snd (validate_voxel_counts cfg seg_data label_dict t)))"
  using assms by (simp add: validate_voxel_counts_def Let_def)

text \<open>
  Claim C8.  The voxel-count check emits an over-segmentation warning exactly when the
  segmentation ratio, the binary64 quotient of the segmented by the total voxel count,
  is strictly greater than \<^verbatim>\<open>max_segmentation_ratio\<close>.  Let \<open>q\<close> be the threshold as it is
  written, held in the configuration as the binary64 number nearest to it.  A volume
  with exactly \<open>q\<close> times the total number of voxels labelled gets no over-segmentation
  warning.  With one labelled voxel more it gets the warning, for every threshold up to 1
  and every total below \<open>2 ^ 52\<close>.
\<close>

theorem over_segmentation_boundary:
  "((\<exists>r. over_segmentation_warning cfg r
           \<in> set (fst (snd (validate_voxel_counts cfg seg_data label_dict t))))
      \<longleftrightarrow> (if t > 0 then py_truediv (int (count_nonzero seg_data)) t else 0)
            > max_segmentation_ratio cfg)
   \<and> (t > 0 \<and> max_segmentation_ratio cfg = binary64 q
        \<and> of_nat (count_nonzero seg_data) = q * of_int t \<longrightarrow>
        \<not> (\<exists>r. over_segmentation_warning cfg r
                 \<in> set (fst (snd (validate_voxel_counts cfg seg_data label_dict t)))))
   \<and> (t > 0 \<and> t < 2 ^ 52 \<and> q \<le> 1 \<and> (q = 0 \<or> 2 powi (- 1022) \<le> q)
        \<and> max_segmentation_ratio cfg = binary64 q
        \<and> of_nat (count_nonzero seg_data) = q * of_int t + 1 \<longrightarrow>
        over_segmentation_warning cfg (py_truediv (int (count_nonzero seg_data)) t)
          \<in> set (fst (snd (validate_voxel_counts cfg seg_data label_dict t))))"
proof (intro conjI impI)
  show "(\<exists>r. over_segmentation_warning cfg r
           \<in> set (fst (snd (validate_voxel_counts cfg seg_data label_dict t))))
      \<longleftrightarrow> (if t > 0 then py_truediv (int (count_nonzero seg_data)) t else 0)
            > max_segmentation_ratio cfg"
    by (rule over_warning_iff)
next
  assume a: "t > 0 \<and> max_segmentation_ratio cfg = binary64 q
        \<and> of_nat (count_nonzero seg_data) = q * of_int t"
  then have "(of_int (int (count_nonzero seg_data)) :: rat) / of_int t = q"
    by simp
  then have "py_truediv (int (count_nonzero seg_data)) t = binary64 q"
    by (simp only: py_truediv_def)
  with a have "(if t > 0 then py_truediv (int (count_nonzero seg_data)) t else 0)
               = max_segmentation_ratio cfg"
    by simp
  then show "\<not> (\<exists>r. over_segmentation_warning cfg r
                 \<in> set (fst (snd (validate_voxel_counts cfg seg_data label_dict t))))"
    unfolding over_warning_iff by simp
next
  assume a: "t > 0 \<and> t < 2 ^ 52 \<and> q \<le> 1 \<and> (q = 0 \<or> 2 powi (- 1022) \<le> q)
        \<and> max_segmentation_ratio cfg = binary64 q
        \<and> of_nat (count_nonzero seg_data) = q * of_int t + 1"
  then have t: "(0::rat) < of_int t" by simp
  from a have "(of_int (int (count_nonzero seg_data)) :: rat) / of_int t = q + 1 / of_int t"
    using t by (simp add: field_simps)
  then have "py_truediv (int (count_nonzero seg_data)) t = binary64 (q + 1 / of_int t)"
    by (simp only: py_truediv_def)
  moreover have "binary64 q < binary64 (q + 1 / of_int t)"
    using a by (intro binary64_increase) simp_all
  ultimately have "(if t > 0 then py_truediv (int (count_nonzero seg_data)) t else 0)
                     > max_segmentation_ratio cfg"
    using a by simp
  from over_warning_present [OF this, of label_dict] a
  show "over_segmentation_warning cfg (py_truediv (int (count_nonzero seg_data)) t)
          \<in> set (fst (snd (validate_voxel_counts cfg seg_data label_dict t)))"
    by simp
qed

lemma normal_95_100: "(2::rat) powi (- 1022) \<le> 95 / 100"
proof -
  have "(2::rat) powi (- 1022) \<le> 2 powi (- 1)" by (rule power_int_increasing) simp_all
  also have "\<dots> \<le> 95 / 100" by simp
  finally show ?thesis .
qed

theorem over_segmentation_boundary_witness:
  "(20::int) > 0 \<and> (20::int) < 2 ^ 52 \<and> (95 / 100 :: rat) \<le> 1
   \<and> (2::rat) powi (- 1022) \<le> 95 / 100
   \<and> max_segmentation_ratio default_config = binary64 (95 / 100)
   \<and> of_nat (count_nonzero volume_19_of_20) = (95 / 100 :: rat) * of_int 20
   \<and> \<not> (\<exists>r. over_segmentation_warning default_config r
              \<in> set (fst (snd (validate_voxel_counts default_config volume_19_of_20 Map.empty 20))))
   \<and> of_nat (count_nonzero volume_20_of_20) = (95 / 100 :: rat) * of_int 20 + 1
   \<and> over_segmentation_warning default_config (py_truediv (int (count_nonzero volume_20_of_20)) 20)
        \<in> set (fst (snd (validate_voxel_counts default_config volume_20_of_20 Map.empty 20)))"
proof -
  have a: "of_nat (count_nonzero volume_19_of_20) = (95 / 100 :: rat) * of_int 20"
    by code_simp
  have b: "of_nat (count_nonzero volume_20_of_20) = (95 / 100 :: rat) * of_int 20 + 1"
    by code_simp
  have m: "max_segmentation_ratio default_config = binary64 (95 / 100)"
    by (simp add: max_segmentation_ratio_def default_config_def)
  have n: "(20::int) < 2 ^ 52" by simp
  show ?thesis
    using a b m n normal_95_100
      over_segmentation_boundary [of default_config volume_19_of_20 Map.empty 20 "95 / 100"]
      over_segmentation_boundary [of default_config volume_20_of_20 Map.empty 20 "95 / 100"]
    by simp
qed

subsection \<open>The artifact cleaner\<close>

lemma zip_map_upt_left:
  "zip (map f [0..<length xs]) xs = map (\<lambda>i. (f i, xs ! i)) [0..<length xs]"
  by (rule nth_equalityI) simp_all

lemma zip_map_upt_right:
  "zip xs (map f [0..<length xs]) = map (\<lambda>i. (xs ! i, f i)) [0..<length xs]"
  by (rule nth_equalityI) simp_all

lemma edge_mask_data:
  "data (edge_mask a axis high) = map (in_slab (shape a) axis high) [0..<length (data a)]"
  by (simp add: edge_mask_def in_slab_def Let_def)

lemma positive_in_edge_data:
  "data (positive_in (edge_mask a axis high) a)
     = map (\<lambda>i. in_slab (shape a) axis high i \<and> data a ! i > 0) [0..<length (data a)]"
  by (simp add: positive_in_def edge_mask_data zip_map_upt_left)

lemma count_true_positive_in:
  "count_true (positive_in (edge_mask a axis high) a) = slab_positive a axis high"
  by (simp add: count_true_def positive_in_edge_data filter_map comp_def slab_positive_def)

lemma assign_masked_positive:
  "assign_masked a (positive_in (edge_mask a axis high) a) 0
     = a\<lparr>data := map (\<lambda>i. if in_slab (shape a) axis high i \<and> data a ! i > 0 then 0 else data a ! i)
                    [0..<length (data a)]\<rparr>"
  by (simp add: assign_masked_def positive_in_edge_data zip_map_upt_right)

lemma slab_positive_zero_id:
  assumes "slab_positive a axis high = 0"
  shows "map (\<lambda>i. if in_slab (shape a) axis high i \<and> data a ! i > 0 then 0 else data a ! i)
           [0..<length (data a)] = data a"
proof -
  from assms have "\<forall>i\<in>set [0..<length (data a)]. \<not> (in_slab (shape a) axis high i \<and> data a ! i > 0)"
    unfolding slab_positive_def by (simp add: filter_empty_conv)
  then have "\<And>i. i < length (data a) \<Longrightarrow> \<not> (in_slab (shape a) axis high i \<and> data a ! i > 0)"
    by simp
  then show ?thesis by (intro nth_equalityI) simp_all
qed

lemma clean_face_eq:
  "clean_face axis high (a, removed) =
     (if (of_nat (slab_positive a axis high) :: rat) / of_nat (slab_size (shape a) axis) < 1 / 10
      then (a\<lparr>data := map (\<lambda>i. if in_slab (shape a) axis high i \<and> data a ! i > 0 then 0 else data a ! i)
                         [0..<length (data a)]\<rparr>,
            removed + slab_positive a axis high)
      else (a, removed))"
proof (cases "slab_positive a axis high = 0")
  case True
  then show ?thesis
    by (simp add: clean_face_def count_true_positive_in Let_def slab_positive_zero_id)
next
  case False
  then show ?thesis
    by (simp add: clean_face_def count_true_positive_in Let_def assign_masked_positive)
qed

lemma clean_artifacts_unfold:
  "3 \<le> length (shape a) \<Longrightarrow>
   clean_artifacts a =
     Inr (case clean_face 2 True (clean_face 2 False (clean_face 1 True (clean_face 1 False
                (clean_face 0 True (clean_face 0 False (a, 0)))))) of
            (c, r) \<Rightarrow> (c, \<lparr>edge_voxels_removed = r, total_cleaned = r\<rparr>))"
proof -
  have u: "[0..<3] = [0, 1, 2]" by (simp add: upt_rec)
  show "3 \<le> length (shape a) \<Longrightarrow> ?thesis"
    by (simp add: clean_artifacts_def u clean_dim_def Let_def split: prod.splits)
qed

text \<open>
  Claim C6, as the code has it.  \<^verbatim>\<open>clean_artifacts\<close> applies the six face slabs in the
  order axis 0 low, axis 0 high, axis 1 low, axis 1 high, axis 2 low, axis 2 high, each
  to the array and count left by the one before.  For one face: when the strictly
  positive voxels of the slab are fewer than 10% of the slab, every strictly positive
  voxel of the slab becomes 0, every other voxel keeps its value, and their number is
  added to the count; when they are 10% or more (exactly 10% included), array and count
  stay as they are.  Nonzero voxels that are negative are neither counted nor zeroed.
\<close>

theorem clean_face_threshold:
  "((of_nat (slab_positive a axis high) :: rat) / of_nat (slab_size (shape a) axis) < 1 / 10 \<longrightarrow>
      snd (clean_face axis high (a, removed)) = removed + slab_positive a axis high
      \<and> shape (fst (clean_face axis high (a, removed))) = shape a
      \<and> length (data (fst (clean_face axis high (a, removed)))) = length (data a)
      \<and> (\<forall>i < length (data a).
            data (fst (clean_face axis high (a, removed))) ! i
              = (if in_slab (shape a) axis high i \<and> data a ! i > 0 then 0 else data a ! i)))
   \<and> (\<not> (of_nat (slab_positive a axis high) :: rat) / of_nat (slab_size (shape a) axis) < 1 / 10 \<longrightarrow>
        clean_face axis high (a, removed) = (a, removed))
   \<and> (3 \<le> length (shape a) \<longrightarrow>
        clean_artifacts a =
          Inr (case clean_face 2 True (clean_face 2 False (clean_face 1 True (clean_face 1 False
                     (clean_face 0 True (clean_face 0 False (a, 0)))))) of
                 (c, r) \<Rightarrow> (c, \<lparr>edge_voxels_removed = r, total_cleaned = r\<rparr>)))"
  by (simp add: clean_face_eq clean_artifacts_unfold)

theorem clean_face_threshold_witness:
  "(of_nat (slab_positive volume_1_in_12 0 False) :: rat)
      / of_nat (slab_size (shape volume_1_in_12) 0) < 1 / 10
   \<and> snd (clean_face 0 False (volume_1_in_12, 0)) = 1
   \<and> data (fst (clean_face 0 False (volume_1_in_12, 0))) ! 11 = 0
   \<and> \<not> (of_nat (slab_positive volume_1_in_10 0 False) :: rat)
          / of_nat (slab_size (shape volume_1_in_10) 0) < 1 / 10
   \<and> clean_face 0 False (volume_1_in_10, 0) = (volume_1_in_10, 0)
   \<and> 3 \<le> length (shape volume_1_in_12)
   \<and> (\<exists>r. clean_artifacts volume_1_in_12 = Inr r)"
proof -
  have below: "(of_nat (slab_positive volume_1_in_12 0 False) :: rat)
      / of_nat (slab_size (shape volume_1_in_12) 0) < 1 / 10"
    by code_simp
  have exact: "\<not> (of_nat (slab_positive volume_1_in_10 0 False) :: rat)
          / of_nat (slab_size (shape volume_1_in_10) 0) < 1 / 10"
    by code_simp
  have k: "slab_positive volume_1_in_12 0 False = 1"
    by code_simp
  have v: "11 < length (data volume_1_in_12)" "in_slab (shape volume_1_in_12) 0 False 11"
    "data volume_1_in_12 ! 11 > 0" "3 \<le> length (shape volume_1_in_12)"
    by code_simp+
  show ?thesis
    using below exact k v
      clean_face_threshold [of volume_1_in_12 0 False 0]
      clean_face_threshold [of volume_1_in_10 0 False 0]
    by simp
qed

text \<open>
  The claim as written speaks of nonzero voxels.  In a slab of 12 voxels whose only
  nonzero voxel is negative, the nonzero fraction is below 10%, yet the face leaves the
  voxel and the count as they are.
\<close>

theorem clean_face_nonzero_counterexample:
  "(of_nat (length (filter (\<lambda>i. in_slab (shape volume_negative_in_12) 0 False i
                                \<and> data volume_negative_in_12 ! i \<noteq> 0)
                      [0..<length (data volume_negative_in_12)])) :: rat)
      / of_nat (slab_size (shape volume_negative_in_12) 0) < 1 / 10
   \<and> in_slab (shape volume_negative_in_12) 0 False 11
   \<and> data volume_negative_in_12 ! 11 \<noteq> 0
   \<and> clean_face 0 False (volume_negative_in_12, 0) = (volume_negative_in_12, 0)
   \<and> clean_artifacts volume_negative_in_12
       = Inr (volume_negative_in_12, \<lparr>edge_voxels_removed = 0, total_cleaned = 0\<rparr>)"
proof -
  have a: "(of_nat (length (filter (\<lambda>i. in_slab (shape volume_negative_in_12) 0 False i
                                \<and> data volume_negative_in_12 ! i \<noteq> 0)
                      [0..<length (data volume_negative_in_12)])) :: rat)
      / of_nat (slab_size (shape volume_negative_in_12) 0) < 1 / 10"
    by code_simp
  have b: "in_slab (shape volume_negative_in_12) 0 False 11"
    by code_simp
  have c: "data volume_negative_in_12 ! 11 \<noteq> 0"
    by code_simp
  have d: "clean_face 0 False (volume_negative_in_12, 0) = (volume_negative_in_12, 0)"
    by code_simp
  have e: "clean_artifacts volume_negative_in_12
       = Inr (volume_negative_in_12, \<lparr>edge_voxels_removed = 0, total_cleaned = 0\<rparr>)"
    by code_simp
  from a b c d e show ?thesis by blast
qed

subsection \<open>The orchestrator\<close>

lemma assign_masked_shape [simp]: "shape (assign_masked a s v) = shape a"
  by (simp add: assign_masked_def)

lemma fold_remove_component_shape:
  "shape (fst (fold (remove_component t lab) ps st)) = shape (fst st)"
  by (induction ps arbitrary: st) (auto simp: remove_component_def Let_def split: prod.splits)

lemma remove_label_step_shape:
  "shape (fst (remove_label_step t l st)) = shape (fst st)"
  by (cases st) (simp add: remove_label_step_def Let_def fold_remove_component_shape split: prod.splits)

lemma fold_remove_label_step_shape:
  "shape (fst (fold (remove_label_step t) ls st)) = shape (fst st)"
  by (induction ls arbitrary: st) (simp_all add: remove_label_step_shape)

lemma remove_small_components_shape:
  "shape (fst (remove_small_components cfg v mv)) = shape v"
  by (simp add: remove_small_components_def Let_def fold_remove_label_step_shape)

lemma clean_artifacts_Inr:
  "3 \<le> length (shape a) \<Longrightarrow> \<exists>c st. clean_artifacts a = Inr (c, st)"
  by (simp add: clean_artifacts_def Let_def split: prod.splits)

lemma run_eq:
  "validate_and_clean_run seg inp d cfg =
     (if cleanup_attempted seg inp d cfg then
        (case clean_artifacts (fst (remove_small_components cfg (img seg) None)) of
           Inl e \<Rightarrow>
             ([RemoveSmallComponents (img seg),
               CleanArtifacts (fst (remove_small_components cfg (img seg) None))], Inl e)
         | Inr p \<Rightarrow>
             ([RemoveSmallComponents (img seg),
               CleanArtifacts (fst (remove_small_components cfg (img seg) None))],
              Inr (if snd (remove_small_components cfg (img seg) None) > 0 \<or> total_cleaned (snd p) > 0
                   then (base_result seg inp d cfg)
                          \<lparr>cleaned_img := Some \<lparr>img = fst p, affine = affine seg\<rparr>,
                           cleaned := True,
                           stats := (stats (base_result seg inp d cfg))
                             \<lparr>components_removed := Some (snd (remove_small_components cfg (img seg) None)),
                              artifacts_removed := Some (total_cleaned (snd p))\<rparr>\<rparr>
                   else base_result seg inp d cfg)))
      else ([], Inr (base_result seg inp d cfg)))"
  unfolding cleanup_attempted_def cleanup_enabled_def merged_warnings_def merged_errors_def
    validate_and_clean_run_def base_result_def Let_def split_beta
  by (simp cong: if_cong sum.case_cong)

lemma np_unique_single_zero:
  "length (np_unique xs) = 1 \<and> np_unique xs ! 0 = 0 \<longleftrightarrow> set xs = {0}"
proof
  assume a: "length (np_unique xs) = 1 \<and> np_unique xs ! 0 = 0"
  then obtain y where y: "np_unique xs = [y]" by (cases "np_unique xs") auto
  with a have "y = 0" by simp
  with y have "set (np_unique xs) = {0}" by simp
  then show "set xs = {0}" by simp
next
  assume s: "set xs = {0}"
  have "np_unique xs = sorted_list_of_set (set xs)"
    using filter_np_unique [of "\<lambda>x. True" xs] by simp
  with s show "length (np_unique xs) = 1 \<and> np_unique xs ! 0 = 0" by simp
qed

lemma nonzero_labels_single:
  assumes "{x \<in> set (data v). x \<noteq> 0} = {l}"
  shows "nonzero_labels v = [l]"
proof -
  have "nonzero_labels v = filter (\<lambda>x. True) (nonzero_labels v)" by simp
  also have "\<dots> = sorted_list_of_set {x \<in> set (data v). x \<noteq> 0 \<and> True}"
    by (rule filter_nonzero_labels)
  finally show ?thesis using assms by simp
qed

lemma count_true_np_eq: "count_true (np_eq a l) = length (filter (\<lambda>x. x = l) (data a))"
  by (simp add: count_true_def np_eq_def filter_map comp_def)

lemma count_true_np_eq_pos: "l \<in> set (data a) \<Longrightarrow> 0 < count_true (np_eq a l)"
  by (simp add: count_true_np_eq filter_empty_conv)

lemma fmt_percent_one: "fmt_percent 1 1 = ''100.0%''"
  by code_simp

lemma binary64_one: "binary64 1 = 1"
  by code_simp

lemma binary64_nine_tenths: "binary64 (9 / 10) < 1"
  by code_simp

lemma py_truediv_same: "0 < c \<Longrightarrow> py_truediv (int c) (int c) = 1"
  by (simp add: py_truediv_def binary64_one)

lemma validate_statistics_single:
  assumes "{x \<in> set (data v). x \<noteq> 0} = {l}"
  shows "validate_statistics v = (True, [dominance_warning l 1], [])"
proof -
  from assms have l: "l \<in> set (data v)" "l \<noteq> 0" by auto
  then have ne: "set (data v) \<noteq> {0}" by auto
  have nz: "filter (\<lambda>label_id. label_id \<noteq> 0) (np_unique (data v)) = [l]"
    using nonzero_labels_single [OF assms] by (simp add: nonzero_labels_def)
  have pos: "0 < count_true (np_eq v l)" using l by (simp add: count_true_np_eq_pos)
  show ?thesis
    using ne pos binary64_nine_tenths
    by (simp add: validate_statistics_def np_unique_single_zero label_counts_def nz Let_def
          py_truediv_same del: One_nat_def)
qed








lemma run_3d:
  assumes "3 \<le> length (shape (img seg))"
  shows "\<exists>r cd2 st.
     validate_and_clean_run seg inp d cfg =
       (if cleanup_attempted seg inp d cfg
        then [RemoveSmallComponents (img seg),
              CleanArtifacts (fst (remove_small_components cfg (img seg) None))]
        else [], Inr r)
   \<and> clean_artifacts (fst (remove_small_components cfg (img seg) None)) = Inr (cd2, st)
   \<and> warnings r = merged_warnings (img seg) d cfg
   \<and> errors r = merged_errors seg inp d cfg
   \<and> valid r = (merged_errors seg inp d cfg = [])
   \<and> (cleaned r \<longleftrightarrow>
        cleanup_attempted seg inp d cfg
        \<and> (snd (remove_small_components cfg (img seg) None) > 0 \<or> total_cleaned st > 0))
   \<and> (cleaned r \<longrightarrow>
        cleaned_img r = Some \<lparr>img = cd2, affine = affine seg\<rparr>
        \<and> components_removed (stats r) = Some (snd (remove_small_components cfg (img seg) None))
        \<and> artifacts_removed (stats r) = Some (total_cleaned st))
   \<and> (\<not> cleaned r \<longrightarrow>
        cleaned_img r = None
        \<and> components_removed (stats r) = None \<and> artifacts_removed (stats r) = None)"
proof -
  have "3 \<le> length (shape (fst (remove_small_components cfg (img seg) None)))"
    using assms by (simp add: remove_small_components_shape)
  then obtain cd2 st where
    ca: "clean_artifacts (fst (remove_small_components cfg (img seg) None)) = Inr (cd2, st)"
    using clean_artifacts_Inr by blast
  show ?thesis
    unfolding run_eq ca by (simp add: base_result_def)
qed

lemma run_lists:
  assumes "validate_and_clean seg inp d cfg = Inr r"
  shows "warnings r = merged_warnings (img seg) d cfg \<and> errors r = merged_errors seg inp d cfg"
  using assms unfolding validate_and_clean_def run_eq
  by (auto simp: base_result_def split: if_splits sum.splits)






text \<open>
  Claim C10.  For a volume whose nonzero voxels all carry one label ID \<open>l\<close> (and that has
  such a voxel), the statistical check emits exactly the dominance warning for \<open>l\<close>, with
  the share 100.0%.  The warning is therefore in the merged warnings of every result of
  \<^verbatim>\<open>validate_and_clean\<close>, which so are non-empty; and for a volume of at least three axes
  \<^verbatim>\<open>validate_and_clean\<close> returns a result.
\<close>

theorem single_label_dominance_warning:
  "{x \<in> set (data (img seg)). x \<noteq> 0} = {l} \<longrightarrow>
     fst (snd (validate_statistics (img seg))) = [dominance_warning l 1]
   \<and> dominance_warning l 1
       = ''Single label (ID: '' @ str_int l
         @ '') dominates segmentation (100.0% of segmented voxels)''
   \<and> (\<forall>r. validate_and_clean seg inp d cfg = Inr r \<longrightarrow>
          dominance_warning l 1 \<in> set (warnings r) \<and> warnings r \<noteq> [])
   \<and> (3 \<le> length (shape (img seg)) \<longrightarrow> (\<exists>r. validate_and_clean seg inp d cfg = Inr r))"
proof
  assume a: "{x \<in> set (data (img seg)). x \<noteq> 0} = {l}"
  have st: "validate_statistics (img seg) = (True, [dominance_warning l 1], [])"
    using a by (rule validate_statistics_single)
  have m: "dominance_warning l 1 \<in> set (merged_warnings (img seg) d cfg)"
    by (simp add: merged_warnings_def st)
  have r: "dominance_warning l 1 \<in> set (warnings r) \<and> warnings r \<noteq> []"
    if "validate_and_clean seg inp d cfg = Inr r" for r
    using run_lists [OF that] m by auto
  have exr: "\<exists>r. validate_and_clean seg inp d cfg = Inr r" if "3 \<le> length (shape (img seg))"
    using run_3d [OF that, of inp d cfg] by (auto simp: validate_and_clean_def)
  have msg: "dominance_warning l 1
       = ''Single label (ID: '' @ str_int l
         @ '') dominates segmentation (100.0% of segmented voxels)''"
    using fmt_percent_one by (simp add: dominance_warning_def)
  from st r exr msg
  show "fst (snd (validate_statistics (img seg))) = [dominance_warning l 1]
   \<and> dominance_warning l 1
       = ''Single label (ID: '' @ str_int l
         @ '') dominates segmentation (100.0% of segmented voxels)''
   \<and> (\<forall>r. validate_and_clean seg inp d cfg = Inr r \<longrightarrow>
          dominance_warning l 1 \<in> set (warnings r) \<and> warnings r \<noteq> [])
   \<and> (3 \<le> length (shape (img seg)) \<longrightarrow> (\<exists>r. validate_and_clean seg inp d cfg = Inr r))"
    by simp
qed

theorem single_label_dominance_warning_witness:
  "{x \<in> set (data (img image_single_label)). x \<noteq> 0} = {4}
   \<and> fst (snd (validate_statistics (img image_single_label)))
       = [''Single label (ID: 4) dominates segmentation (100.0% of segmented voxels)'']
   \<and> 3 \<le> length (shape (img image_single_label))
   \<and> (\<exists>r. validate_and_clean image_single_label no_input_image catalog_5_7 default_config = Inr r
          \<and> ''Single label (ID: 4) dominates segmentation (100.0% of segmented voxels)''
               \<in> set (warnings r))"
proof -
  have a: "{x \<in> set (data (img image_single_label)). x \<noteq> 0} = {4}"
    by (auto simp: image_single_label_def)
  have b: "3 \<le> length (shape (img image_single_label))"
    by code_simp
  have c: "str_int 4 = ''4''"
    by code_simp
  show ?thesis
    using single_label_dominance_warning
            [of image_single_label 4 no_input_image catalog_5_7 default_config] a b c
    by auto
qed

subsection \<open>The cleaner and the caller's array\<close>

lemma fold_remove_component_store:
  "c < length h \<Longrightarrow>
   fold (remove_component_store t lab c) ps (h, n) =
     (h[c := fst (fold (remove_component t lab) ps (h ! c, n))],
      snd (fold (remove_component t lab) ps (h ! c, n)))"
proof (induction ps arbitrary: h n)
  case Nil
  then show ?case by simp
next
  case (Cons p ps)
  obtain i sz where p: "p = (i, sz)" by (cases p)
  show ?case
  proof (cases "int sz < t")
    case True
    have len: "c < length (store_assign_masked h c (np_eq lab i) 0)"
      using Cons.prems by (simp add: store_assign_masked_def)
    show ?thesis
      using True Cons.prems Cons.IH [OF len]
      by (simp add: p remove_component_store_def remove_component_def Let_def
            store_assign_masked_def)
  next
    case False
    then show ?thesis
      using Cons.prems Cons.IH [OF Cons.prems]
      by (simp add: p remove_component_store_def remove_component_def)
  qed
qed

lemma remove_label_step_store_eq:
  "c < length h \<Longrightarrow>
   remove_label_step_store t c l (h, n) =
     (h[c := fst (remove_label_step t l (h ! c, n))], snd (remove_label_step t l (h ! c, n)))"
  by (simp add: remove_label_step_store_def remove_label_step_def Let_def
        fold_remove_component_store split: prod.splits)

lemma fold_remove_label_step_store:
  "c < length h \<Longrightarrow>
   fold (remove_label_step_store t c) ls (h, n) =
     (h[c := fst (fold (remove_label_step t) ls (h ! c, n))],
      snd (fold (remove_label_step t) ls (h ! c, n)))"
proof (induction ls arbitrary: h n)
  case Nil
  then show ?case by simp
next
  case (Cons l ls)
  have len: "c < length (h[c := fst (remove_label_step t l (h ! c, n))])"
    using Cons.prems by simp
  show ?case
    using Cons.prems Cons.IH [OF len]
    by (simp add: remove_label_step_store_eq)
qed

lemma remove_small_components_store_eq:
  assumes "seg < length h"
  shows "remove_small_components_store cfg h seg mv =
     (h @ [fst (remove_small_components cfg (h ! seg) mv)], length h,
      snd (remove_small_components cfg (h ! seg) mv))"
proof -
  have c: "length h < length (h @ [h ! seg])" by simp
  show ?thesis
    using assms
    by (simp add: remove_small_components_store_def remove_small_components_def np_copy_def
          Let_def fold_remove_label_step_store [OF c] nth_append)
qed

lemma clean_face_store_eq:
  "c < length h \<Longrightarrow>
   clean_face_store c axis high (h, r) =
     (h[c := fst (clean_face axis high (h ! c, r))], snd (clean_face axis high (h ! c, r)))"
  by (simp add: clean_face_store_def clean_face_def Let_def store_assign_masked_def)

lemma clean_dim_store_eq:
  "c < length h \<Longrightarrow>
   clean_dim_store c axis (h, r) =
     (h[c := fst (clean_dim axis (h ! c, r))], snd (clean_dim axis (h ! c, r)))"
  by (simp add: clean_dim_store_def clean_dim_def clean_face_store_eq)

lemma fold_clean_dim_store:
  "c < length h \<Longrightarrow>
   fold (clean_dim_store c) axes (h, r) =
     (h[c := fst (fold clean_dim axes (h ! c, r))], snd (fold clean_dim axes (h ! c, r)))"
proof (induction axes arbitrary: h r)
  case Nil
  then show ?case by simp
next
  case (Cons a axes)
  have len: "c < length (h[c := fst (clean_dim a (h ! c, r))])"
    using Cons.prems by simp
  show ?case
    using Cons.prems Cons.IH [OF len]
    by (simp add: clean_dim_store_eq)
qed

lemma clean_artifacts_store_eq:
  assumes "seg < length h"
  shows "clean_artifacts_store h seg =
     (case clean_artifacts (h ! seg) of
        Inl e \<Rightarrow> (h @ [h ! seg], Inl e)
      | Inr (a, st) \<Rightarrow> (h @ [a], Inr (length h, st)))"
proof -
  have c: "length h < length (h @ [h ! seg])" by simp
  show ?thesis
    using assms
    by (simp add: clean_artifacts_store_def clean_artifacts_def np_copy_def
          Let_def fold_clean_dim_store [OF c] nth_append split: prod.splits)
qed

text \<open>
  Claim C9.  \<^verbatim>\<open>remove_small_components\<close> and \<^verbatim>\<open>clean_artifacts\<close> never write to the
  array they are given: after either call every array that existed before, the argument
  included, holds the elements it held before.  The array they return is a new one, at
  an address distinct from the argument's, and it holds what the function computes from
  the argument.  When \<^verbatim>\<open>clean_artifacts\<close> raises, the argument is unchanged all the same.
\<close>

theorem cleaner_leaves_input_unchanged:
  "seg_data < length h \<longrightarrow>
     (case remove_small_components_store cfg h seg_data min_voxels of
        (h', cleaned_data, n) \<Rightarrow>
          h' ! seg_data = h ! seg_data
          \<and> (\<forall>a < length h. h' ! a = h ! a)
          \<and> cleaned_data \<noteq> seg_data \<and> cleaned_data = length h
          \<and> (h' ! cleaned_data, n) = remove_small_components cfg (h ! seg_data) min_voxels)
   \<and> (case clean_artifacts_store h seg_data of
        (h', res) \<Rightarrow>
          h' ! seg_data = h ! seg_data
          \<and> (\<forall>a < length h. h' ! a = h ! a)
          \<and> (case res of
                Inl e \<Rightarrow> clean_artifacts (h ! seg_data) = Inl e
              | Inr (cleaned_data, st) \<Rightarrow>
                  cleaned_data \<noteq> seg_data \<and> cleaned_data = length h
                  \<and> clean_artifacts (h ! seg_data) = Inr (h' ! cleaned_data, st)))"
proof
  assume a: "seg_data < length h"
  have r: "case remove_small_components_store cfg h seg_data min_voxels of
        (h', cleaned_data, n) \<Rightarrow>
          h' ! seg_data = h ! seg_data
          \<and> (\<forall>a < length h. h' ! a = h ! a)
          \<and> cleaned_data \<noteq> seg_data \<and> cleaned_data = length h
          \<and> (h' ! cleaned_data, n) = remove_small_components cfg (h ! seg_data) min_voxels"
    using a by (simp add: remove_small_components_store_eq [OF a] nth_append)
  have c: "case clean_artifacts_store h seg_data of
        (h', res) \<Rightarrow>
          h' ! seg_data = h ! seg_data
          \<and> (\<forall>a < length h. h' ! a = h ! a)
          \<and> (case res of
                Inl e \<Rightarrow> clean_artifacts (h ! seg_data) = Inl e
              | Inr (cleaned_data, st) \<Rightarrow>
                  cleaned_data \<noteq> seg_data \<and> cleaned_data = length h
                  \<and> clean_artifacts (h ! seg_data) = Inr (h' ! cleaned_data, st))"
    using a
    by (cases "clean_artifacts (h ! seg_data)")
       (auto simp: clean_artifacts_store_eq [OF a] nth_append)
  from r c show "(case remove_small_components_store cfg h seg_data min_voxels of
        (h', cleaned_data, n) \<Rightarrow>
          h' ! seg_data = h ! seg_data
          \<and> (\<forall>a < length h. h' ! a = h ! a)
          \<and> cleaned_data \<noteq> seg_data \<and> cleaned_data = length h
          \<and> (h' ! cleaned_data, n) = remove_small_components cfg (h ! seg_data) min_voxels)
   \<and> (case clean_artifacts_store h seg_data of
        (h', res) \<Rightarrow>
          h' ! seg_data = h ! seg_data
          \<and> (\<forall>a < length h. h' ! a = h ! a)
          \<and> (case res of
                Inl e \<Rightarrow> clean_artifacts (h ! seg_data) = Inl e
              | Inr (cleaned_data, st) \<Rightarrow>
                  cleaned_data \<noteq> seg_data \<and> cleaned_data = length h
                  \<and> clean_artifacts (h ! seg_data) = Inr (h' ! cleaned_data, st)))"
    by (rule conjI)
qed

theorem cleaner_leaves_input_unchanged_witness:
  "(0::nat) < length [img image_two_labels]
   \<and> fst (remove_small_components_store default_config [img image_two_labels] 0 None) ! 0
       = img image_two_labels
   \<and> fst (snd (remove_small_components_store default_config [img image_two_labels] 0 None)) \<noteq> 0
   \<and> fst (clean_artifacts_store [img image_two_labels] 0) ! 0 = img image_two_labels"
proof -
  have a: "(0::nat) < length [img image_two_labels]" by simp
  obtain h1 c1 n1 where r: "remove_small_components_store default_config [img image_two_labels] 0 None
      = (h1, c1, n1)"
    by (cases "remove_small_components_store default_config [img image_two_labels] 0 None")
  obtain h2 res where c: "clean_artifacts_store [img image_two_labels] 0 = (h2, res)"
    by (cases "clean_artifacts_store [img image_two_labels] 0")
  show ?thesis
    using cleaner_leaves_input_unchanged [of 0 "[img image_two_labels]" default_config None] a
    by (simp add: r c)
qed


end
